theory Spec2Isabelle
  imports Main
begin

section \<open>The TypingAnimation component\<close>

text \<open>
  The component of \<^verbatim>\<open>src/TypingAnimation.tsx\<close> is a React function component with four
  \<^verbatim>\<open>useState\<close> cells and two \<^verbatim>\<open>useEffect\<close> hooks. It is embedded as a state machine:
  an instance holds the current props, the four state cells, the pending one-shot timer of
  the first effect, the running interval of the second effect, and the trace of the calls
  the component has made to the host (timer API and the \<^verbatim>\<open>onComplete\<close> callback).

  Time is not modelled: a timer is an event that may happen while the timer is pending, in
  any order with the other timer, and the duration passed to the host is recorded in the
  trace. The state setters called in one callback are applied together before the effects
  of the next render run (React batches them).

  Numbers of the source (\<^verbatim>\<open>speed\<close>, \<^verbatim>\<open>delay\<close>) are modelled as integers, indices as
  naturals, strings as character lists (indexing by position, as the source indexes by code
  unit). A callback reference is a natural number naming the function; \<open>None\<close> is
  \<^verbatim>\<open>undefined\<close>. The field \<^verbatim>\<open>text\<close> of the props is written \<open>text'\<close>.
\<close>

subsection \<open>Props and state (lines 3-23)\<close>

record props =
  text' :: string
  speed :: int
  delay :: int
  className :: string
  onComplete :: "nat option"
  hideCursorWhenComplete :: bool

definition defaultProps :: "string \<Rightarrow> props" where
  \<comment> \<open>the destructuring defaults of lines 14-18\<close>
  "defaultProps t =
     \<lparr>text' = t, speed = 100, delay = 0, className = '''', onComplete = None,
      hideCursorWhenComplete = False\<rparr>"

record hooks =
  displayedText :: string
  currentIndex :: nat
  showCursor :: bool
  isComplete :: bool

definition initialHooks :: hooks where
  \<comment> \<open>the four \<^verbatim>\<open>useState\<close> initial values, lines 20-23\<close>
  "initialHooks =
     \<lparr>displayedText = '''', currentIndex = 0, showCursor = True, isComplete = False\<rparr>"

subsection \<open>Timers and the trace of host calls\<close>

text \<open>
  A pending timeout remembers the values its callback closed over (the \<^verbatim>\<open>currentIndex\<close>,
  \<^verbatim>\<open>text\<close> and \<^verbatim>\<open>onComplete\<close> of the render in which the effect ran) and the delay it was
  scheduled with (line 36).
\<close>

record closure =
  c_currentIndex :: nat
  c_text :: string
  c_onComplete :: "nat option"
  c_ms :: int

datatype call =
    SetTimeout int
  | TimeoutFired
  | ClearTimeout
  | SetInterval int
  | ClearInterval
  | OnCompleteCalled nat

record component =
  curProps :: props
  st :: hooks
  timer :: "closure option"
  cursorTimer :: "int option"
  trace :: "call list"

subsection \<open>The reveal effect (lines 25-40)\<close>

definition revealEffect :: "component \<Rightarrow> component" where
  \<comment> \<open>lines 26-37: schedule one timeout, after \<^verbatim>\<open>currentIndex === 0 ? delay : speed\<close>\<close>
  "revealEffect i =
     (let ms = (if currentIndex (st i) = 0 then delay (curProps i) else speed (curProps i))
      in i\<lparr>timer := Some \<lparr>c_currentIndex = currentIndex (st i),
                            c_text = text' (curProps i),
                            c_onComplete = onComplete (curProps i),
                            c_ms = ms\<rparr>,
            trace := trace i @ [SetTimeout ms]\<rparr>)"

definition revealCleanup :: "component \<Rightarrow> component" where
  \<comment> \<open>line 39: \<^verbatim>\<open>clearTimeout(timer)\<close>\<close>
  "revealCleanup i = i\<lparr>timer := None, trace := trace i @ [ClearTimeout]\<rparr>"

definition timeoutCallback :: "closure \<Rightarrow> component \<Rightarrow> component" where
  \<comment> \<open>lines 27-35; the two state setters of the first branch take the previous state\<close>
  "timeoutCallback c i =
     (if c_currentIndex c < length (c_text c) then
        i\<lparr>st := (st i)\<lparr>displayedText := displayedText (st i) @ [c_text c ! c_currentIndex c],
                        currentIndex := currentIndex (st i) + 1\<rparr>\<rparr>
      else
        (let j = i\<lparr>st := (st i)\<lparr>isComplete := True\<rparr>\<rparr>
         in case c_onComplete c of
              None \<Rightarrow> j
            | Some f \<Rightarrow> j\<lparr>trace := trace j @ [OnCompleteCalled f]\<rparr>))"

subsection \<open>The cursor effect (lines 43-54)\<close>

definition cursorEffect :: "component \<Rightarrow> component" where
  \<comment> \<open>lines 44-51: either force the cursor off and return, or start the interval\<close>
  "cursorEffect i =
     (if hideCursorWhenComplete (curProps i) \<and> isComplete (st i) then
        i\<lparr>st := (st i)\<lparr>showCursor := False\<rparr>\<rparr>
      else
        i\<lparr>cursorTimer := Some 500, trace := trace i @ [SetInterval 500]\<rparr>)"

definition cursorCleanup :: "component \<Rightarrow> component" where
  \<comment> \<open>line 53: \<^verbatim>\<open>clearInterval(cursorTimer)\<close>, returned only when the interval was started\<close>
  "cursorCleanup i =
     (case cursorTimer i of
        None \<Rightarrow> i
      | Some _ \<Rightarrow> i\<lparr>cursorTimer := None, trace := trace i @ [ClearInterval]\<rparr>)"

definition intervalCallback :: "component \<Rightarrow> component" where
  \<comment> \<open>line 50: \<^verbatim>\<open>setShowCursor((prev) => !prev)\<close>\<close>
  "intervalCallback i = i\<lparr>st := (st i)\<lparr>showCursor := \<not> showCursor (st i)\<rparr>\<rparr>"

subsection \<open>Committing a render: the dependency arrays (lines 40 and 54)\<close>

definition revealDepsChanged :: "props \<Rightarrow> hooks \<Rightarrow> component \<Rightarrow> bool" where
  \<comment> \<open>line 40: \<^verbatim>\<open>[currentIndex, text, speed, delay, onComplete]\<close>\<close>
  "revealDepsChanged p0 s0 i \<longleftrightarrow>
     currentIndex s0 \<noteq> currentIndex (st i) \<or> text' p0 \<noteq> text' (curProps i) \<or>
     speed p0 \<noteq> speed (curProps i) \<or> delay p0 \<noteq> delay (curProps i) \<or>
     onComplete p0 \<noteq> onComplete (curProps i)"

definition cursorDepsChanged :: "props \<Rightarrow> hooks \<Rightarrow> component \<Rightarrow> bool" where
  \<comment> \<open>line 54: \<^verbatim>\<open>[hideCursorWhenComplete, isComplete]\<close>\<close>
  "cursorDepsChanged p0 s0 i \<longleftrightarrow>
     hideCursorWhenComplete p0 \<noteq> hideCursorWhenComplete (curProps i) \<or>
     isComplete s0 \<noteq> isComplete (st i)"

definition commit :: "props \<Rightarrow> hooks \<Rightarrow> component \<Rightarrow> component" where
  \<comment> \<open>after a render, the effects whose dependencies differ from those of the previous
      render (props \<open>p0\<close>, state \<open>s0\<close>) are cleaned up, then run again, in source order\<close>
  "commit p0 s0 i =
     (let r = revealDepsChanged p0 s0 i;
          c = cursorDepsChanged p0 s0 i;
          i1 = (if r then revealCleanup i else i);
          i2 = (if c then cursorCleanup i1 else i1);
          i3 = (if r then revealEffect i2 else i2)
      in (if c then cursorEffect i3 else i3))"

subsection \<open>Mounting and the events of an instance\<close>

definition mount :: "props \<Rightarrow> component" where
  \<comment> \<open>first render: initial state, then both effects run\<close>
  "mount p =
     cursorEffect (revealEffect
       \<lparr>curProps = p, st = initialHooks, timer = None, cursorTimer = None, trace = []\<rparr>)"

text \<open>
  Three things happen to a mounted instance: the pending timeout fires (lines 27-35 run),
  the interval fires (line 50 runs), or the parent renders the component with props
  \<open>p\<close>. A timer that is not pending does not fire: the event leaves the instance as it
  is. After each of them the component renders again and \<open>commit\<close> runs the effects
  whose dependencies changed.
\<close>

datatype event =
    TimeoutFires
  | IntervalFires
  | Rerender props

fun step :: "event \<Rightarrow> component \<Rightarrow> component" where
  "step TimeoutFires i =
     (case timer i of
        None \<Rightarrow> i
      | Some c \<Rightarrow>
          commit (curProps i) (st i)
            (timeoutCallback c (i\<lparr>timer := None, trace := trace i @ [TimeoutFired]\<rparr>)))"
| "step IntervalFires i =
     (case cursorTimer i of
        None \<Rightarrow> i
      | Some _ \<Rightarrow> commit (curProps i) (st i) (intervalCallback i))"
| "step (Rerender p) i = commit (curProps i) (st i) (i\<lparr>curProps := p\<rparr>)"

fun run :: "event list \<Rightarrow> component \<Rightarrow> component" where
  "run [] i = i"
| "run (e # es) i = run es (step e i)"

fun fixedEvent :: "props \<Rightarrow> event \<Rightarrow> bool" where
  "fixedEvent p (Rerender q) = (q = p)"
| "fixedEvent p _ = True"

definition fixedConfig :: "props \<Rightarrow> event list \<Rightarrow> bool" where
  \<comment> \<open>the parent never passes props different from those of the mount\<close>
  "fixedConfig p es = list_all (fixedEvent p) es"

text \<open>
  The reveal effect depends on four of the props only (line 40). \<open>sameReveal p q\<close> says
  that \<open>q\<close> has the \<^verbatim>\<open>text\<close>, \<^verbatim>\<open>speed\<close>, \<^verbatim>\<open>delay\<close> and \<^verbatim>\<open>onComplete\<close> of \<open>p\<close>;
  \<open>revealFixed p es\<close> that every re-render among the events \<open>es\<close> passes such props: the
  parent may still change \<^verbatim>\<open>className\<close> and \<^verbatim>\<open>hideCursorWhenComplete\<close>.
\<close>

definition sameReveal :: "props \<Rightarrow> props \<Rightarrow> bool" where
  "sameReveal p q \<longleftrightarrow>
     text' q = text' p \<and> speed q = speed p \<and> delay q = delay p \<and>
     onComplete q = onComplete p"

fun revealFixedEvent :: "props \<Rightarrow> event \<Rightarrow> bool" where
  "revealFixedEvent p (Rerender q) = sameReveal p q"
| "revealFixedEvent p _ = True"

definition revealFixed :: "props \<Rightarrow> event list \<Rightarrow> bool" where
  "revealFixed p es = list_all (revealFixedEvent p) es"

subsection \<open>The render projection (lines 56-70)\<close>

record caret =
  glyph :: string
  opacity :: nat

record rendered =
  o_className :: string
  o_text :: string
  o_caret :: "caret option"

definition render :: "props \<Rightarrow> hooks \<Rightarrow> rendered" where
  "render p s =
     \<lparr>o_className = className p,
      o_text = displayedText s,
      o_caret = (if \<not> hideCursorWhenComplete p \<or> \<not> isComplete s
                 then Some \<lparr>glyph = ''|'', opacity = (if showCursor s then 1 else 0)\<rparr>
                 else None)\<rparr>"

subsection \<open>Reading the trace\<close>

fun timeouts :: "call list \<Rightarrow> int list" where
  "timeouts [] = []"
| "timeouts (SetTimeout ms # cs) = ms # timeouts cs"
| "timeouts (_ # cs) = timeouts cs"

fun wakeups :: "call list \<Rightarrow> nat" where
  "wakeups [] = 0"
| "wakeups (TimeoutFired # cs) = Suc (wakeups cs)"
| "wakeups (_ # cs) = wakeups cs"

fun completions :: "call list \<Rightarrow> nat list" where
  "completions [] = []"
| "completions (OnCompleteCalled f # cs) = f # completions cs"
| "completions (_ # cs) = completions cs"

subsection \<open>The state invariant under a fixed configuration\<close>

text \<open>
  \<open>pendingClosure p s\<close> is the timeout the reveal effect schedules when it runs with props
  \<open>p\<close> in state \<open>s\<close>. \<open>wellFormed p\<close> collects what holds of every state an instance
  mounted with \<open>p\<close> reaches while its props stay \<open>p\<close>.
\<close>

definition pendingClosure :: "props \<Rightarrow> hooks \<Rightarrow> closure" where
  "pendingClosure p s =
     \<lparr>c_currentIndex = currentIndex s, c_text = text' p, c_onComplete = onComplete p,
      c_ms = (if currentIndex s = 0 then delay p else speed p)\<rparr>"

definition wellFormed :: "props \<Rightarrow> component \<Rightarrow> bool" where
  "wellFormed p i \<longleftrightarrow>
     curProps i = p \<and>
     currentIndex (st i) \<le> length (text' p) \<and>
     displayedText (st i) = take (currentIndex (st i)) (text' p) \<and>
     (isComplete (st i) \<longrightarrow> currentIndex (st i) = length (text' p)) \<and>
     timer i = (if isComplete (st i) then None else Some (pendingClosure p (st i))) \<and>
     cursorTimer i = (if hideCursorWhenComplete p \<and> isComplete (st i) then None else Some 500) \<and>
     (hideCursorWhenComplete p \<and> isComplete (st i) \<longrightarrow> \<not> showCursor (st i)) \<and>
     timeouts (trace i) = delay p # replicate (currentIndex (st i)) (speed p) \<and>
     wakeups (trace i) = currentIndex (st i) + (if isComplete (st i) then 1 else 0) \<and>
     completions (trace i) =
       (if isComplete (st i) then (case onComplete p of None \<Rightarrow> [] | Some f \<Rightarrow> [f]) else [])"

text \<open>
  \<open>revealInv p\<close> is the part of the invariant that concerns the reveal driver; it needs
  only the four props of the reveal effect to stay those of \<open>p\<close>.
\<close>

definition revealInv :: "props \<Rightarrow> component \<Rightarrow> bool" where
  "revealInv p i \<longleftrightarrow>
     sameReveal p (curProps i) \<and>
     currentIndex (st i) \<le> length (text' p) \<and>
     (isComplete (st i) \<longrightarrow> currentIndex (st i) = length (text' p)) \<and>
     timer i = (if isComplete (st i) then None else Some (pendingClosure p (st i))) \<and>
     timeouts (trace i) = delay p # replicate (currentIndex (st i)) (speed p) \<and>
     wakeups (trace i) = currentIndex (st i) + (if isComplete (st i) then 1 else 0) \<and>
     completions (trace i) =
       (if isComplete (st i) then (case onComplete p of None \<Rightarrow> [] | Some f \<Rightarrow> [f]) else [])"

section \<open>Properties\<close>

subsection \<open>Reading a trace that grows\<close>

lemma timeouts_append: "timeouts (xs @ ys) = timeouts xs @ timeouts ys"
  by (induction xs rule: timeouts.induct) simp_all

lemma wakeups_append: "wakeups (xs @ ys) = wakeups xs + wakeups ys"
  by (induction xs rule: wakeups.induct) simp_all

lemma completions_append: "completions (xs @ ys) = completions xs @ completions ys"
  by (induction xs rule: completions.induct) simp_all

subsection \<open>The invariant holds of every reachable state\<close>

lemmas model_defs =
  revealEffect_def revealCleanup_def timeoutCallback_def cursorEffect_def cursorCleanup_def
  intervalCallback_def revealDepsChanged_def cursorDepsChanged_def commit_def
  pendingClosure_def Let_def

lemma wellFormed_mount: "wellFormed p (mount p)"
  by (simp add: wellFormed_def mount_def initialHooks_def model_defs)

lemma wellFormed_rerender: "wellFormed p i \<Longrightarrow> step (Rerender p) i = i"
  by (simp add: wellFormed_def model_defs)


lemma wellFormed_interval: "wellFormed p i \<Longrightarrow> wellFormed p (step IntervalFires i)"
  by (auto simp add: wellFormed_def model_defs split: option.splits)


lemma step_timeout_reveal:
  assumes "timer i = Some c" "c_currentIndex c < length (c_text c)"
  shows "step TimeoutFires i =
     revealEffect (revealCleanup
       (i\<lparr>timer := None, trace := trace i @ [TimeoutFired],
          st := (st i)\<lparr>displayedText := displayedText (st i) @ [c_text c ! c_currentIndex c],
                          currentIndex := currentIndex (st i) + 1\<rparr>\<rparr>))"
  using assms
  by (simp add: timeoutCallback_def commit_def revealDepsChanged_def cursorDepsChanged_def
      revealEffect_def revealCleanup_def Let_def)

lemma wellFormed_timeout_reveal:
  assumes w: "wellFormed p i" and nc: "\<not> isComplete (st i)"
    and lt: "currentIndex (st i) < length (text' p)"
  shows "wellFormed p (step TimeoutFires i)"
proof -
  have t: "timer i = Some (pendingClosure p (st i))"
    using w nc by (simp add: wellFormed_def)
  have c: "c_currentIndex (pendingClosure p (st i)) < length (c_text (pendingClosure p (st i)))"
    using lt by (simp add: pendingClosure_def)
  show ?thesis
    unfolding step_timeout_reveal [OF t c]
    using w nc lt
    by (simp add: wellFormed_def revealEffect_def revealCleanup_def pendingClosure_def Let_def
        timeouts_append wakeups_append completions_append take_Suc_conv_app_nth
        replicate_append_same)
qed


lemma commit_cases:
  "\<not> revealDepsChanged p0 s0 i \<Longrightarrow> \<not> cursorDepsChanged p0 s0 i \<Longrightarrow> commit p0 s0 i = i"
  "revealDepsChanged p0 s0 i \<Longrightarrow> \<not> cursorDepsChanged p0 s0 i \<Longrightarrow>
     commit p0 s0 i = revealEffect (revealCleanup i)"
  "\<not> revealDepsChanged p0 s0 i \<Longrightarrow> cursorDepsChanged p0 s0 i \<Longrightarrow>
     commit p0 s0 i = cursorEffect (cursorCleanup i)"
  "revealDepsChanged p0 s0 i \<Longrightarrow> cursorDepsChanged p0 s0 i \<Longrightarrow>
     commit p0 s0 i = cursorEffect (revealEffect (cursorCleanup (revealCleanup i)))"
  by (simp_all add: commit_def)

lemma step_timeout_terminal:
  assumes t: "timer i = Some c" and ge: "\<not> c_currentIndex c < length (c_text c)"
    and nc: "\<not> isComplete (st i)"
  shows "step TimeoutFires i =
     cursorEffect (cursorCleanup
       (i\<lparr>timer := None,
          trace := trace i @ [TimeoutFired] @
                   (case c_onComplete c of None \<Rightarrow> [] | Some f \<Rightarrow> [OnCompleteCalled f]),
          st := (st i)\<lparr>isComplete := True\<rparr>\<rparr>))"
proof (cases "c_onComplete c")
  case None
  let ?j = "i\<lparr>timer := None, trace := trace i @ [TimeoutFired], st := (st i)\<lparr>isComplete := True\<rparr>\<rparr>"
  have cb: "timeoutCallback c (i\<lparr>timer := None, trace := trace i @ [TimeoutFired]\<rparr>) = ?j"
    using ge None by (simp add: timeoutCallback_def)
  have "commit (curProps i) (st i) ?j = cursorEffect (cursorCleanup ?j)"
    using nc by (intro commit_cases(3)) (simp_all add: revealDepsChanged_def cursorDepsChanged_def)
  with t cb None show ?thesis by simp
next
  case (Some f)
  let ?j = "i\<lparr>timer := None, trace := trace i @ [TimeoutFired, OnCompleteCalled f],
              st := (st i)\<lparr>isComplete := True\<rparr>\<rparr>"
  have cb: "timeoutCallback c (i\<lparr>timer := None, trace := trace i @ [TimeoutFired]\<rparr>) = ?j"
    using ge Some by (simp add: timeoutCallback_def)
  have "commit (curProps i) (st i) ?j = cursorEffect (cursorCleanup ?j)"
    using nc by (intro commit_cases(3)) (simp_all add: revealDepsChanged_def cursorDepsChanged_def)
  with t cb Some show ?thesis by simp
qed

lemma wellFormed_timeout_terminal:
  assumes w: "wellFormed p i" and nc: "\<not> isComplete (st i)"
    and ge: "\<not> currentIndex (st i) < length (text' p)"
  shows "wellFormed p (step TimeoutFires i)"
proof -
  have t: "timer i = Some (pendingClosure p (st i))"
    using w nc by (simp add: wellFormed_def)
  have c: "\<not> c_currentIndex (pendingClosure p (st i)) < length (c_text (pendingClosure p (st i)))"
    using ge by (simp add: pendingClosure_def)
  have ct: "cursorTimer i = Some 500"
    using w nc by (simp add: wellFormed_def)
  have ci: "currentIndex (st i) = length (text' p)"
    using w ge by (simp add: wellFormed_def)
  have cp: "curProps i = p"
    using w by (simp add: wellFormed_def)
  have dt: "displayedText (st i) = take (currentIndex (st i)) (text' p)"
    using w by (simp add: wellFormed_def)
  have tr: "timeouts (trace i) = delay p # replicate (currentIndex (st i)) (speed p)"
    "wakeups (trace i) = currentIndex (st i)" "completions (trace i) = []"
    using w nc by (simp_all add: wellFormed_def)
  show ?thesis
    unfolding step_timeout_terminal [OF t c nc] wellFormed_def
    by (simp add: cursorEffect_def cursorCleanup_def pendingClosure_def ct ci cp dt tr
        timeouts_append wakeups_append completions_append split: option.splits)
qed


lemma wellFormed_timeout: "wellFormed p i \<Longrightarrow> wellFormed p (step TimeoutFires i)"
proof (cases "isComplete (st i)")
  case True
  assume "wellFormed p i"
  with True show ?thesis by (simp add: wellFormed_def)
next
  case False
  assume "wellFormed p i"
  with False show ?thesis
    by (cases "currentIndex (st i) < length (text' p)")
       (blast intro: wellFormed_timeout_reveal wellFormed_timeout_terminal)+
qed

lemma wellFormed_step: "wellFormed p i \<Longrightarrow> fixedEvent p e \<Longrightarrow> wellFormed p (step e i)"
  by (cases e)
     (simp_all add: wellFormed_rerender wellFormed_interval wellFormed_timeout del: step.simps)

lemma wellFormed_run: "wellFormed p i \<Longrightarrow> fixedConfig p es \<Longrightarrow> wellFormed p (run es i)"
  by (induction es arbitrary: i) (simp_all add: fixedConfig_def wellFormed_step)

lemma reachable_wellFormed: "fixedConfig p es \<Longrightarrow> wellFormed p (run es (mount p))"
  by (rule wellFormed_run [OF wellFormed_mount])

subsection \<open>What a commit changes\<close>

lemma commit_st:
  "currentIndex (st (commit p0 s0 i)) = currentIndex (st i)"
  "displayedText (st (commit p0 s0 i)) = displayedText (st i)"
  "isComplete (st (commit p0 s0 i)) = isComplete (st i)"
  "curProps (commit p0 s0 i) = curProps i"
  by (simp_all add: commit_def revealEffect_def revealCleanup_def cursorEffect_def
      cursorCleanup_def Let_def split: option.splits)

lemma commit_timer:
  "timer (commit p0 s0 i) =
     (if revealDepsChanged p0 s0 i then Some (pendingClosure (curProps i) (st i)) else timer i)"
  by (simp add: commit_def revealEffect_def revealCleanup_def cursorEffect_def
      cursorCleanup_def pendingClosure_def Let_def split: option.splits)

lemma commit_completions:
  "completions (trace (commit p0 s0 i)) = completions (trace i)"
  by (simp add: commit_def revealEffect_def revealCleanup_def cursorEffect_def
      cursorCleanup_def Let_def completions_append split: option.splits)

lemma commit_timeouts:
  "timeouts (trace (commit p0 s0 i)) =
     timeouts (trace i) @
     (if revealDepsChanged p0 s0 i then [c_ms (pendingClosure (curProps i) (st i))] else [])"
  by (simp add: commit_def revealEffect_def revealCleanup_def cursorEffect_def
      cursorCleanup_def pendingClosure_def Let_def timeouts_append split: option.splits)

lemma step_currentIndex_mono: "currentIndex (st i) \<le> currentIndex (st (step e i))"
  by (cases e)
     (simp_all add: commit_st timeoutCallback_def intervalCallback_def Let_def
       split: option.splits)

lemma run_currentIndex_mono: "currentIndex (st i) \<le> currentIndex (st (run es i))"
proof (induction es arbitrary: i)
  case Nil
  show ?case by simp
next
  case (Cons e es)
  have "currentIndex (st i) \<le> currentIndex (st (step e i))"
    by (rule step_currentIndex_mono)
  also have "\<dots> \<le> currentIndex (st (run es (step e i)))"
    by (rule Cons.IH)
  finally show ?case by simp
qed

lemma run_append: "run (es @ es') i = run es' (run es i)"
  by (induction es arbitrary: i) simp_all

subsection \<open>Progress of the reveal\<close>

lemma timeout_reveal_st:
  assumes w: "wellFormed p i" and nc: "\<not> isComplete (st i)"
    and lt: "currentIndex (st i) < length (text' p)"
  shows "currentIndex (st (step TimeoutFires i)) = Suc (currentIndex (st i))"
    and "\<not> isComplete (st (step TimeoutFires i))"
proof -
  have t: "timer i = Some (pendingClosure p (st i))"
    using w nc by (simp add: wellFormed_def)
  have c: "c_currentIndex (pendingClosure p (st i)) < length (c_text (pendingClosure p (st i)))"
    using lt by (simp add: pendingClosure_def)
  show "currentIndex (st (step TimeoutFires i)) = Suc (currentIndex (st i))"
    unfolding step_timeout_reveal [OF t c]
    by (simp add: revealEffect_def revealCleanup_def Let_def)
  show "\<not> isComplete (st (step TimeoutFires i))"
    unfolding step_timeout_reveal [OF t c] using nc
    by (simp add: revealEffect_def revealCleanup_def Let_def)
qed

lemma timeout_terminal_st:
  assumes w: "wellFormed p i" and nc: "\<not> isComplete (st i)"
    and ge: "\<not> currentIndex (st i) < length (text' p)"
  shows "isComplete (st (step TimeoutFires i))"
proof -
  have t: "timer i = Some (pendingClosure p (st i))"
    using w nc by (simp add: wellFormed_def)
  have c: "\<not> c_currentIndex (pendingClosure p (st i)) < length (c_text (pendingClosure p (st i)))"
    using ge by (simp add: pendingClosure_def)
  show ?thesis
    unfolding step_timeout_terminal [OF t c nc]
    by (simp add: cursorEffect_def cursorCleanup_def split: option.splits)
qed

lemma full_run_completes:
  assumes "wellFormed p i" "\<not> isComplete (st i)"
    and "k = length (text' p) - currentIndex (st i)"
  shows "isComplete (st (run (replicate (Suc k) TimeoutFires) i))"
  using assms
proof (induction k arbitrary: i)
  case 0
  then have "\<not> currentIndex (st i) < length (text' p)" by simp
  with 0 show ?case by (simp add: timeout_terminal_st del: step.simps)
next
  case (Suc k)
  then have lt: "currentIndex (st i) < length (text' p)" by simp
  have w': "wellFormed p (step TimeoutFires i)"
    using Suc.prems(1) by (rule wellFormed_timeout)
  have nc': "\<not> isComplete (st (step TimeoutFires i))"
    using Suc.prems(1,2) lt by (rule timeout_reveal_st(2))
  have k': "k = length (text' p) - currentIndex (st (step TimeoutFires i))"
    using Suc.prems lt by (simp add: timeout_reveal_st(1) del: step.simps)
  have "isComplete (st (run (replicate (Suc k) TimeoutFires) (step TimeoutFires i)))"
    using w' nc' k' by (rule Suc.IH)
  then show ?case by (simp del: step.simps)
qed

lemma mount_not_complete: "\<not> isComplete (st (mount p))"
  by (simp add: mount_def initialHooks_def revealEffect_def cursorEffect_def Let_def)

lemma mount_currentIndex: "currentIndex (st (mount p)) = 0"
  by (simp add: mount_def initialHooks_def revealEffect_def cursorEffect_def Let_def)

lemma mount_full_run:
  "isComplete (st (run (replicate (Suc (length (text' p))) TimeoutFires) (mount p)))"
  by (rule full_run_completes [OF wellFormed_mount mount_not_complete])
     (simp add: mount_currentIndex)

subsection \<open>What one event does, in any state\<close>

lemma timeoutCallback_terminal:
  assumes "\<not> c_currentIndex c < length (c_text c)"
  shows "timeoutCallback c i =
     i\<lparr>st := (st i)\<lparr>isComplete := True\<rparr>,
       trace := trace i @
         (case c_onComplete c of None \<Rightarrow> [] | Some f \<Rightarrow> [OnCompleteCalled f])\<rparr>"
  using assms by (cases "c_onComplete c") (simp_all add: timeoutCallback_def Let_def)

lemma commit_wakeups: "wakeups (trace (commit p0 s0 i)) = wakeups (trace i)"
  by (simp add: commit_def revealEffect_def revealCleanup_def cursorEffect_def
      cursorCleanup_def Let_def wakeups_append split: option.splits)

lemma rerender_quiet:
  assumes "sameReveal (curProps i) r"
  shows "timer (step (Rerender r) i) = timer i"
    and "currentIndex (st (step (Rerender r) i)) = currentIndex (st i)"
    and "displayedText (st (step (Rerender r) i)) = displayedText (st i)"
    and "isComplete (st (step (Rerender r) i)) = isComplete (st i)"
    and "timeouts (trace (step (Rerender r) i)) = timeouts (trace i)"
    and "wakeups (trace (step (Rerender r) i)) = wakeups (trace i)"
    and "completions (trace (step (Rerender r) i)) = completions (trace i)"
    and "curProps (step (Rerender r) i) = r"
proof -
  have nr: "\<not> revealDepsChanged (curProps i) (st i) (i\<lparr>curProps := r\<rparr>)"
    using assms by (simp add: revealDepsChanged_def sameReveal_def)
  show "timer (step (Rerender r) i) = timer i"
    using nr by (simp add: commit_timer)
  show "timeouts (trace (step (Rerender r) i)) = timeouts (trace i)"
    using nr by (simp add: commit_timeouts)
  show "currentIndex (st (step (Rerender r) i)) = currentIndex (st i)"
    and "displayedText (st (step (Rerender r) i)) = displayedText (st i)"
    and "isComplete (st (step (Rerender r) i)) = isComplete (st i)"
    and "wakeups (trace (step (Rerender r) i)) = wakeups (trace i)"
    and "completions (trace (step (Rerender r) i)) = completions (trace i)"
    and "curProps (step (Rerender r) i) = r"
    by (simp_all add: commit_st commit_wakeups commit_completions)
qed

lemma interval_quiet:
  shows "timer (step IntervalFires i) = timer i"
    and "currentIndex (st (step IntervalFires i)) = currentIndex (st i)"
    and "displayedText (st (step IntervalFires i)) = displayedText (st i)"
    and "isComplete (st (step IntervalFires i)) = isComplete (st i)"
    and "timeouts (trace (step IntervalFires i)) = timeouts (trace i)"
    and "wakeups (trace (step IntervalFires i)) = wakeups (trace i)"
    and "completions (trace (step IntervalFires i)) = completions (trace i)"
    and "curProps (step IntervalFires i) = curProps i"
  by (cases "cursorTimer i";
      simp add: commit_cases(1) intervalCallback_def revealDepsChanged_def
        cursorDepsChanged_def)+

lemma wakeup_terminal:
  assumes t: "timer j = Some c" and ge: "\<not> c_currentIndex c < length (c_text c)"
  shows "isComplete (st (step TimeoutFires j))"
    and "currentIndex (st (step TimeoutFires j)) = currentIndex (st j)"
    and "displayedText (st (step TimeoutFires j)) = displayedText (st j)"
    and "curProps (step TimeoutFires j) = curProps j"
    and "timer (step TimeoutFires j) = None"
    and "timeouts (trace (step TimeoutFires j)) = timeouts (trace j)"
    and "wakeups (trace (step TimeoutFires j)) = wakeups (trace j) + 1"
    and "completions (trace (step TimeoutFires j)) =
           completions (trace j) @ (case c_onComplete c of None \<Rightarrow> [] | Some f \<Rightarrow> [f])"
proof -
  let ?k = "j\<lparr>timer := None,
      st := (st j)\<lparr>isComplete := True\<rparr>,
      trace := (trace j @ [TimeoutFired]) @
        (case c_onComplete c of None \<Rightarrow> [] | Some f \<Rightarrow> [OnCompleteCalled f])\<rparr>"
  have k: "timeoutCallback c (j\<lparr>timer := None, trace := trace j @ [TimeoutFired]\<rparr>) = ?k"
    unfolding timeoutCallback_terminal [OF ge] by simp
  have s: "step TimeoutFires j = commit (curProps j) (st j) ?k"
    using t k by simp
  have nr: "\<not> revealDepsChanged (curProps j) (st j) ?k"
    by (simp add: revealDepsChanged_def)
  show "isComplete (st (step TimeoutFires j))"
    and "currentIndex (st (step TimeoutFires j)) = currentIndex (st j)"
    and "displayedText (st (step TimeoutFires j)) = displayedText (st j)"
    and "curProps (step TimeoutFires j) = curProps j"
    unfolding s commit_st by simp_all
  show "timer (step TimeoutFires j) = None"
    unfolding s commit_timer using nr by simp
  show "timeouts (trace (step TimeoutFires j)) = timeouts (trace j)"
    unfolding s commit_timeouts using nr
    by (cases "c_onComplete c") (simp_all add: timeouts_append)
  show "wakeups (trace (step TimeoutFires j)) = wakeups (trace j) + 1"
    unfolding s commit_wakeups
    by (cases "c_onComplete c") (simp_all add: wakeups_append)
  show "completions (trace (step TimeoutFires j)) =
      completions (trace j) @ (case c_onComplete c of None \<Rightarrow> [] | Some f \<Rightarrow> [f])"
    unfolding s commit_completions
    by (cases "c_onComplete c") (simp_all add: completions_append)
qed

lemma wakeup_reveal:
  assumes t: "timer j = Some c" and lt: "c_currentIndex c < length (c_text c)"
  shows "isComplete (st (step TimeoutFires j)) = isComplete (st j)"
    and "currentIndex (st (step TimeoutFires j)) = currentIndex (st j) + 1"
    and "displayedText (st (step TimeoutFires j)) =
           displayedText (st j) @ [c_text c ! c_currentIndex c]"
    and "curProps (step TimeoutFires j) = curProps j"
    and "timer (step TimeoutFires j) =
           Some \<lparr>c_currentIndex = currentIndex (st j) + 1, c_text = text' (curProps j),
                 c_onComplete = onComplete (curProps j), c_ms = speed (curProps j)\<rparr>"
    and "timeouts (trace (step TimeoutFires j)) = timeouts (trace j) @ [speed (curProps j)]"
    and "wakeups (trace (step TimeoutFires j)) = wakeups (trace j) + 1"
    and "completions (trace (step TimeoutFires j)) = completions (trace j)"
proof -
  let ?k = "j\<lparr>timer := None, trace := trace j @ [TimeoutFired],
      st := (st j)\<lparr>displayedText := displayedText (st j) @ [c_text c ! c_currentIndex c],
                     currentIndex := currentIndex (st j) + 1\<rparr>\<rparr>"
  have s: "step TimeoutFires j = commit (curProps j) (st j) ?k"
    using t lt by (simp add: timeoutCallback_def)
  have r: "revealDepsChanged (curProps j) (st j) ?k"
    by (simp add: revealDepsChanged_def)
  show "isComplete (st (step TimeoutFires j)) = isComplete (st j)"
    and "currentIndex (st (step TimeoutFires j)) = currentIndex (st j) + 1"
    and "displayedText (st (step TimeoutFires j)) =
           displayedText (st j) @ [c_text c ! c_currentIndex c]"
    and "curProps (step TimeoutFires j) = curProps j"
    unfolding s commit_st by simp_all
  show "timer (step TimeoutFires j) =
      Some \<lparr>c_currentIndex = currentIndex (st j) + 1, c_text = text' (curProps j),
            c_onComplete = onComplete (curProps j), c_ms = speed (curProps j)\<rparr>"
    unfolding s commit_timer using r by (simp add: pendingClosure_def)
  show "timeouts (trace (step TimeoutFires j)) = timeouts (trace j) @ [speed (curProps j)]"
    unfolding s commit_timeouts using r by (simp add: pendingClosure_def timeouts_append)
  show "wakeups (trace (step TimeoutFires j)) = wakeups (trace j) + 1"
    unfolding s commit_wakeups by (simp add: wakeups_append)
  show "completions (trace (step TimeoutFires j)) = completions (trace j)"
    unfolding s commit_completions by (simp add: completions_append)
qed

subsection \<open>The reveal invariant, when only the four reveal props are fixed\<close>

lemma pendingClosure_sameReveal:
  "sameReveal p q \<Longrightarrow> pendingClosure q s = pendingClosure p s"
  by (simp add: sameReveal_def pendingClosure_def)

lemma revealInv_mount: "revealInv p (mount p)"
  using wellFormed_mount [of p] by (simp add: wellFormed_def revealInv_def sameReveal_def)

lemma revealInv_rerender:
  assumes v: "revealInv p i" and r: "sameReveal p r"
  shows "revealInv p (step (Rerender r) i)"
proof -
  have "sameReveal (curProps i) r"
    using v r by (simp add: revealInv_def sameReveal_def)
  note q = rerender_quiet [OF this]
  show ?thesis
    using v r unfolding revealInv_def
    by (simp add: q pendingClosure_def del: step.simps)
qed

lemma revealInv_interval:
  assumes v: "revealInv p i"
  shows "revealInv p (step IntervalFires i)"
  using v unfolding revealInv_def
  by (simp add: interval_quiet pendingClosure_def del: step.simps)

lemma revealInv_timeout:
  assumes v: "revealInv p i"
  shows "revealInv p (step TimeoutFires i)"
proof (cases "isComplete (st i)")
  case True
  with v have "timer i = None" by (simp add: revealInv_def)
  then have "step TimeoutFires i = i" by simp
  with v show ?thesis by simp
next
  case False
  let ?c = "pendingClosure p (st i)"
  have t: "timer i = Some ?c"
    using v False by (simp add: revealInv_def)
  have sp: "text' (curProps i) = text' p" "speed (curProps i) = speed p"
    "delay (curProps i) = delay p" "onComplete (curProps i) = onComplete p"
    using v by (simp_all add: revealInv_def sameReveal_def)
  have le: "currentIndex (st i) \<le> length (text' p)"
    and ts: "timeouts (trace i) = delay p # replicate (currentIndex (st i)) (speed p)"
    and ws: "wakeups (trace i) = currentIndex (st i)"
    and cs: "completions (trace i) = []"
    using v False by (simp_all add: revealInv_def)
  show ?thesis
  proof (cases "currentIndex (st i) < length (text' p)")
    case True
    then have lt: "c_currentIndex ?c < length (c_text ?c)"
      by (simp add: pendingClosure_def)
    note w = wakeup_reveal [OF t lt]
    show ?thesis
      unfolding revealInv_def
      using False True sp ts ws cs
      by (simp add: w sameReveal_def pendingClosure_def replicate_append_same
          del: step.simps)
  next
    case ge: False
    then have nl: "\<not> c_currentIndex ?c < length (c_text ?c)"
      by (simp add: pendingClosure_def)
    from ge le have eq: "currentIndex (st i) = length (text' p)" by simp
    note w = wakeup_terminal [OF t nl]
    show ?thesis
      unfolding revealInv_def
      using sp ts ws cs eq
      by (simp add: w sameReveal_def pendingClosure_def del: step.simps)
  qed
qed

lemma revealInv_step:
  "revealInv p i \<Longrightarrow> revealFixedEvent p e \<Longrightarrow> revealInv p (step e i)"
  by (cases e)
     (simp_all add: revealInv_rerender revealInv_interval revealInv_timeout del: step.simps)

lemma revealInv_run: "revealInv p i \<Longrightarrow> revealFixed p es \<Longrightarrow> revealInv p (run es i)"
  by (induction es arbitrary: i) (simp_all add: revealFixed_def revealInv_step del: step.simps)

lemma reachable_revealInv: "revealFixed p es \<Longrightarrow> revealInv p (run es (mount p))"
  by (rule revealInv_run [OF revealInv_mount])

lemma revealFixed_timeouts: "revealFixed p (replicate k TimeoutFires)"
  by (simp add: revealFixed_def list_all_iff)

lemma sameReveal_refl: "sameReveal q q"
  by (simp add: sameReveal_def)

lemma quiet_run:
  assumes "sameReveal q (curProps j)" and "revealFixed q es" and "TimeoutFires \<notin> set es"
  shows "timer (run es j) = timer j \<and>
         currentIndex (st (run es j)) = currentIndex (st j) \<and>
         displayedText (st (run es j)) = displayedText (st j) \<and>
         isComplete (st (run es j)) = isComplete (st j) \<and>
         timeouts (trace (run es j)) = timeouts (trace j) \<and>
         completions (trace (run es j)) = completions (trace j) \<and>
         sameReveal q (curProps (run es j))"
  using assms
proof (induction es arbitrary: j)
  case Nil
  then show ?case by simp
next
  case (Cons e es)
  have rest: "revealFixed q es" "TimeoutFires \<notin> set es"
    using Cons.prems by (simp_all add: revealFixed_def)
  show ?case
  proof (cases e)
    case TimeoutFires
    with Cons.prems show ?thesis by simp
  next
    case IntervalFires
    have "sameReveal q (curProps (step IntervalFires j))"
      using Cons.prems(1) by (simp add: interval_quiet del: step.simps)
    from Cons.IH [OF this rest] show ?thesis
      unfolding IntervalFires by (simp add: interval_quiet del: step.simps)
  next
    case (Rerender r)
    then have qr: "sameReveal q r"
      using Cons.prems(2) by (simp add: revealFixed_def)
    with Cons.prems(1) have jr: "sameReveal (curProps j) r"
      by (simp add: sameReveal_def)
    have "sameReveal q (curProps (step (Rerender r) j))"
      using qr by (simp add: rerender_quiet [OF jr] del: step.simps)
    from Cons.IH [OF this rest] show ?thesis
      unfolding Rerender by (simp add: rerender_quiet [OF jr] del: step.simps)
  qed
qed

section \<open>The claims\<close>

text \<open>The definitions a concrete run is evaluated with.\<close>

lemmas eval_defs =
  mount_def initialHooks_def defaultProps_def revealEffect_def revealCleanup_def
  timeoutCallback_def cursorEffect_def cursorCleanup_def intervalCallback_def
  revealDepsChanged_def cursorDepsChanged_def commit_def fixedConfig_def Let_def

lemmas reveal_eval_defs = eval_defs revealFixed_def sameReveal_def

subsection \<open>C1: the completion flag\<close>

text \<open>
  C1 as stated: in every reachable state with fixed configuration, \<^verbatim>\<open>isComplete\<close> is true
  if and only if \<^verbatim>\<open>currentIndex == text.length\<close>. This fails between the last reveal and
  the terminal wake-up: for the text \<^verbatim>\<open>"Hi"\<close>, after two wake-ups \<^verbatim>\<open>currentIndex\<close> is 2,
  the length of the text, and \<^verbatim>\<open>isComplete\<close> is still false (line 32 runs only in the
  wake-up after).
\<close>

theorem C1_counterexample:
  "currentIndex (st (run [TimeoutFires, TimeoutFires] (mount (defaultProps ''Hi'')))) =
     length (text' (defaultProps ''Hi'')) \<and>
   \<not> isComplete (st (run [TimeoutFires, TimeoutFires] (mount (defaultProps ''Hi''))))"
  by (simp add: eval_defs)

text \<open>
  C1, amended: in every state reached from a mount while the props stay fixed,
  \<^verbatim>\<open>isComplete\<close> is true if and only if \<^verbatim>\<open>currentIndex == text.length\<close> and no reveal
  timeout is pending (the terminal wake-up has fired). In particular \<^verbatim>\<open>isComplete\<close>
  implies \<^verbatim>\<open>currentIndex == text.length\<close>.
\<close>

theorem C1_completion_flag:
  assumes "fixedConfig p es"
  shows "isComplete (st (run es (mount p))) \<longleftrightarrow>
         currentIndex (st (run es (mount p))) = length (text' p) \<and>
         timer (run es (mount p)) = None"
  using reachable_wellFormed [OF assms] by (auto simp add: wellFormed_def split: if_splits)

text \<open>The amended C1 at the text \<^verbatim>\<open>"Hi"\<close>, after its three wake-ups.\<close>

theorem C1_completion_flag_witness:
  "fixedConfig (defaultProps ''Hi'') [TimeoutFires, IntervalFires, TimeoutFires, TimeoutFires] \<and>
   isComplete (st (run [TimeoutFires, IntervalFires, TimeoutFires, TimeoutFires]
                    (mount (defaultProps ''Hi'')))) \<and>
   currentIndex (st (run [TimeoutFires, IntervalFires, TimeoutFires, TimeoutFires]
                    (mount (defaultProps ''Hi'')))) = 2 \<and>
   timer (run [TimeoutFires, IntervalFires, TimeoutFires, TimeoutFires]
                    (mount (defaultProps ''Hi''))) = None"
  using C1_completion_flag
    [of "defaultProps ''Hi''" "[TimeoutFires, IntervalFires, TimeoutFires, TimeoutFires]"]
  by (simp add: eval_defs)

subsection \<open>C2: the sequence of wait times\<close>

text \<open>
  C2: with fixed props, the pending reveal timeout was scheduled with \<^verbatim>\<open>delay\<close> exactly
  when \<^verbatim>\<open>currentIndex\<close> is 0 and with \<^verbatim>\<open>speed\<close> otherwise; the delays passed to
  \<^verbatim>\<open>setTimeout\<close> so far are \<^verbatim>\<open>delay\<close> followed by one \<^verbatim>\<open>speed\<close> per revealed
  character; the wake-ups so far are one per revealed character, plus the terminal one once
  \<^verbatim>\<open>isComplete\<close> is set. So a completed run of a text of length \<open>n\<close> has waited
  \<^verbatim>\<open>delay, speed, ..., speed\<close> (\<open>n\<close> times \<^verbatim>\<open>speed\<close>) over \<open>n + 1\<close> wake-ups, and
  \<open>n + 1\<close> firings of the timeout do complete the run.
\<close>

theorem C2_wait_times:
  assumes "fixedConfig p es"
  shows "timer (run es (mount p)) =
           (if isComplete (st (run es (mount p))) then None
            else Some \<lparr>c_currentIndex = currentIndex (st (run es (mount p))),
                       c_text = text' p, c_onComplete = onComplete p,
                       c_ms = (if currentIndex (st (run es (mount p))) = 0
                               then delay p else speed p)\<rparr>) \<and>
         timeouts (trace (run es (mount p))) =
           delay p # replicate (currentIndex (st (run es (mount p)))) (speed p) \<and>
         wakeups (trace (run es (mount p))) =
           currentIndex (st (run es (mount p))) +
           (if isComplete (st (run es (mount p))) then 1 else 0) \<and>
         (isComplete (st (run es (mount p))) \<longrightarrow>
           timeouts (trace (run es (mount p))) =
             delay p # replicate (length (text' p)) (speed p) \<and>
           wakeups (trace (run es (mount p))) = length (text' p) + 1) \<and>
         isComplete (st (run (replicate (length (text' p) + 1) TimeoutFires) (mount p)))"
proof -
  let ?i = "run es (mount p)"
  have w: "wellFormed p ?i" using assms by (rule reachable_wellFormed)
  have a: "timer ?i =
           (if isComplete (st ?i) then None
            else Some \<lparr>c_currentIndex = currentIndex (st ?i),
                       c_text = text' p, c_onComplete = onComplete p,
                       c_ms = (if currentIndex (st ?i) = 0 then delay p else speed p)\<rparr>)"
    using w by (simp add: wellFormed_def pendingClosure_def)
  have t: "timeouts (trace ?i) = delay p # replicate (currentIndex (st ?i)) (speed p)"
    using w by (simp add: wellFormed_def)
  have k: "wakeups (trace ?i) = currentIndex (st ?i) + (if isComplete (st ?i) then 1 else 0)"
    using w by (simp add: wellFormed_def)
  have c: "currentIndex (st ?i) = length (text' p)" if "isComplete (st ?i)"
    using w that by (simp add: wellFormed_def)
  have f: "isComplete (st (run (replicate (length (text' p) + 1) TimeoutFires) (mount p)))"
    using mount_full_run [of p] by simp
  from t k c have d: "isComplete (st ?i) \<longrightarrow>
      timeouts (trace ?i) = delay p # replicate (length (text' p)) (speed p) \<and>
      wakeups (trace ?i) = length (text' p) + 1"
    by simp
  from a t k d f show ?thesis by blast
qed

text \<open>C2 at the text \<^verbatim>\<open>"Hi"\<close> with \<^verbatim>\<open>speed = 10\<close> and \<^verbatim>\<open>delay = 30\<close>.\<close>

theorem C2_wait_times_witness:
  "fixedConfig ((defaultProps ''Hi'')\<lparr>speed := 10, delay := 30\<rparr>)
     [TimeoutFires, TimeoutFires, IntervalFires, TimeoutFires] \<and>
   timeouts (trace (run [TimeoutFires, TimeoutFires, IntervalFires, TimeoutFires]
     (mount ((defaultProps ''Hi'')\<lparr>speed := 10, delay := 30\<rparr>)))) = [30, 10, 10] \<and>
   wakeups (trace (run [TimeoutFires, TimeoutFires, IntervalFires, TimeoutFires]
     (mount ((defaultProps ''Hi'')\<lparr>speed := 10, delay := 30\<rparr>)))) = 3"
  using C2_wait_times [of "(defaultProps ''Hi'')\<lparr>speed := 10, delay := 30\<rparr>"
      "[TimeoutFires, TimeoutFires, IntervalFires, TimeoutFires]"]
  by (simp add: eval_defs)

subsection \<open>C3: completion is notified once\<close>

text \<open>
  C3: let \<^verbatim>\<open>text\<close>, \<^verbatim>\<open>speed\<close>, \<^verbatim>\<open>delay\<close> and the \<^verbatim>\<open>onComplete\<close> reference stay
  those of the mount (the parent may re-render the component with another \<^verbatim>\<open>className\<close>
  or \<^verbatim>\<open>hideCursorWhenComplete\<close>), and let \<open>f\<close> be the \<^verbatim>\<open>onComplete\<close> callback. Then
  the calls of the callback so far are exactly one call of \<open>f\<close> if the terminal wake-up
  (wake-up number \<open>length text + 1\<close>) has happened and none otherwise; there is never a
  further wake-up; until the terminal wake-up a reveal timeout is always pending; and after
  \<open>length text + 1\<close> firings of the timeout the callback has been called exactly once.
\<close>

theorem C3_onComplete_once:
  assumes "revealFixed p es" and "onComplete p = Some f"
  shows "completions (trace (run es (mount p))) =
           (if wakeups (trace (run es (mount p))) = length (text' p) + 1 then [f] else []) \<and>
         wakeups (trace (run es (mount p))) \<le> length (text' p) + 1 \<and>
         (wakeups (trace (run es (mount p))) < length (text' p) + 1 \<longrightarrow>
            timer (run es (mount p)) \<noteq> None) \<and>
         completions (trace (run (replicate (length (text' p) + 1) TimeoutFires) (mount p))) = [f]"
proof -
  let ?i = "run es (mount p)"
  let ?j = "run (replicate (length (text' p) + 1) TimeoutFires) (mount p)"
  have v: "revealInv p ?i" using assms(1) by (rule reachable_revealInv)
  have k: "wakeups (trace ?i) = currentIndex (st ?i) + (if isComplete (st ?i) then 1 else 0)"
    and le: "currentIndex (st ?i) \<le> length (text' p)"
    and c: "isComplete (st ?i) \<longrightarrow> currentIndex (st ?i) = length (text' p)"
    and t: "timer ?i = (if isComplete (st ?i) then None else Some (pendingClosure p (st ?i)))"
    and o: "completions (trace ?i) = (if isComplete (st ?i) then [f] else [])"
    using v assms(2) by (simp_all add: revealInv_def)
  have iff: "isComplete (st ?i) \<longleftrightarrow> wakeups (trace ?i) = length (text' p) + 1"
    using k le c by (cases "isComplete (st ?i)") simp_all
  have a: "completions (trace ?i) =
      (if wakeups (trace ?i) = length (text' p) + 1 then [f] else [])"
    using o iff by simp
  have b: "wakeups (trace ?i) \<le> length (text' p) + 1"
    using k le by simp
  have d: "wakeups (trace ?i) < length (text' p) + 1 \<longrightarrow> timer ?i \<noteq> None"
    using t iff by simp
  have "revealInv p ?j"
    by (rule reachable_revealInv) (rule revealFixed_timeouts)
  moreover have "isComplete (st ?j)"
    using mount_full_run [of p] by simp
  ultimately have e: "completions (trace ?j) = [f]"
    using assms(2) by (simp add: revealInv_def)
  from a b d e show ?thesis by blast
qed

text \<open>
  C3 at the text \<^verbatim>\<open>"Hi"\<close>: the parent changes \<^verbatim>\<open>className\<close> and then
  \<^verbatim>\<open>hideCursorWhenComplete\<close> during the run, the timeout event is offered five times,
  fires three times, and the callback 7 is called once.
\<close>

theorem C3_onComplete_once_witness:
  "revealFixed ((defaultProps ''Hi'')\<lparr>onComplete := Some 7\<rparr>)
     [TimeoutFires, Rerender ((defaultProps ''Hi'')\<lparr>onComplete := Some 7, className := ''x''\<rparr>),
      TimeoutFires, TimeoutFires,
      Rerender ((defaultProps ''Hi'')\<lparr>onComplete := Some 7, hideCursorWhenComplete := True\<rparr>),
      TimeoutFires, IntervalFires, TimeoutFires] \<and>
   onComplete ((defaultProps ''Hi'')\<lparr>onComplete := Some 7\<rparr>) = Some 7 \<and>
   completions (trace (run
     [TimeoutFires, Rerender ((defaultProps ''Hi'')\<lparr>onComplete := Some 7, className := ''x''\<rparr>),
      TimeoutFires, TimeoutFires,
      Rerender ((defaultProps ''Hi'')\<lparr>onComplete := Some 7, hideCursorWhenComplete := True\<rparr>),
      TimeoutFires, IntervalFires, TimeoutFires]
     (mount ((defaultProps ''Hi'')\<lparr>onComplete := Some 7\<rparr>)))) = [7] \<and>
   wakeups (trace (run
     [TimeoutFires, Rerender ((defaultProps ''Hi'')\<lparr>onComplete := Some 7, className := ''x''\<rparr>),
      TimeoutFires, TimeoutFires,
      Rerender ((defaultProps ''Hi'')\<lparr>onComplete := Some 7, hideCursorWhenComplete := True\<rparr>),
      TimeoutFires, IntervalFires, TimeoutFires]
     (mount ((defaultProps ''Hi'')\<lparr>onComplete := Some 7\<rparr>)))) = 3"
  using C3_onComplete_once [of "(defaultProps ''Hi'')\<lparr>onComplete := Some 7\<rparr>"
     "[TimeoutFires, Rerender ((defaultProps ''Hi'')\<lparr>onComplete := Some 7, className := ''x''\<rparr>),
      TimeoutFires, TimeoutFires,
      Rerender ((defaultProps ''Hi'')\<lparr>onComplete := Some 7, hideCursorWhenComplete := True\<rparr>),
      TimeoutFires, IntervalFires, TimeoutFires]" 7]
  by (simp add: reveal_eval_defs)

subsection \<open>C4: the render projection\<close>

text \<open>
  C4: the output is a function of props and state alone (\<open>render\<close>), and in every state
  reached with fixed props the container holds the prefix
  \<^verbatim>\<open>text[0:currentIndex]\<close> as its text and the caller's class name; the caret is the
  glyph \<^verbatim>\<open>|\<close> with opacity 1 when \<^verbatim>\<open>showCursor\<close> is true and 0 when it is false, and
  the caret node is absent exactly when \<^verbatim>\<open>hideCursorWhenComplete\<close> and \<^verbatim>\<open>isComplete\<close>
  are both true.
\<close>

theorem C4_render_projection:
  assumes "fixedConfig p es"
  shows "render (curProps (run es (mount p))) (st (run es (mount p))) =
           \<lparr>o_className = className p,
            o_text = take (currentIndex (st (run es (mount p)))) (text' p),
            o_caret =
              (if hideCursorWhenComplete p \<and> isComplete (st (run es (mount p))) then None
               else Some \<lparr>glyph = ''|'',
                          opacity = (if showCursor (st (run es (mount p))) then 1 else 0)\<rparr>)\<rparr>"
  using reachable_wellFormed [OF assms] by (simp add: wellFormed_def render_def)

text \<open>
  C4 at the text \<^verbatim>\<open>"Hi"\<close> after one reveal and one blink: the text is \<^verbatim>\<open>"H"\<close> and
  the caret is present with opacity 0.
\<close>

theorem C4_render_projection_witness:
  "fixedConfig ((defaultProps ''Hi'')\<lparr>hideCursorWhenComplete := True\<rparr>)
     [TimeoutFires, IntervalFires] \<and>
   render (curProps (run [TimeoutFires, IntervalFires]
             (mount ((defaultProps ''Hi'')\<lparr>hideCursorWhenComplete := True\<rparr>))))
          (st (run [TimeoutFires, IntervalFires]
             (mount ((defaultProps ''Hi'')\<lparr>hideCursorWhenComplete := True\<rparr>)))) =
     \<lparr>o_className = '''', o_text = ''H'', o_caret = Some \<lparr>glyph = ''|'', opacity = 0\<rparr>\<rparr>"
  using C4_render_projection [of "(defaultProps ''Hi'')\<lparr>hideCursorWhenComplete := True\<rparr>"
      "[TimeoutFires, IntervalFires]"]
  by (simp add: eval_defs)

subsection \<open>C5: the caret blinker\<close>

lemma interval_toggle:
  assumes "cursorTimer i = Some ms"
  shows "showCursor (st (step IntervalFires i)) = (\<not> showCursor (st i))"
    and "cursorTimer (step IntervalFires i) = Some ms"
  using assms
  by (simp_all add: commit_cases(1) intervalCallback_def revealDepsChanged_def
      cursorDepsChanged_def)

text \<open>
  C5: in every state reached with fixed props, the interval is running, with period 500,
  unless \<^verbatim>\<open>hideCursorWhenComplete\<close> and \<^verbatim>\<open>isComplete\<close> are both true. While it runs,
  each firing toggles \<^verbatim>\<open>showCursor\<close> and leaves the interval running; with
  \<^verbatim>\<open>hideCursorWhenComplete\<close> false that is every reachable state, completed or not.
  With \<^verbatim>\<open>hideCursorWhenComplete\<close> true, once \<^verbatim>\<open>isComplete\<close> is true no interval is
  running, \<^verbatim>\<open>showCursor\<close> is false and an interval event changes nothing.
\<close>

theorem C5_caret_blinker:
  assumes "fixedConfig p es"
  shows "cursorTimer (run es (mount p)) =
           (if hideCursorWhenComplete p \<and> isComplete (st (run es (mount p)))
            then None else Some 500) \<and>
         (hideCursorWhenComplete p \<and> isComplete (st (run es (mount p))) \<longrightarrow>
            \<not> showCursor (st (run es (mount p))) \<and>
            step IntervalFires (run es (mount p)) = run es (mount p)) \<and>
         (\<not> (hideCursorWhenComplete p \<and> isComplete (st (run es (mount p)))) \<longrightarrow>
            showCursor (st (step IntervalFires (run es (mount p)))) =
              (\<not> showCursor (st (run es (mount p)))) \<and>
            cursorTimer (step IntervalFires (run es (mount p))) = Some 500)"
proof -
  let ?i = "run es (mount p)"
  have w: "wellFormed p ?i" using assms by (rule reachable_wellFormed)
  have a: "cursorTimer ?i =
      (if hideCursorWhenComplete p \<and> isComplete (st ?i) then None else Some 500)"
    using w by (simp add: wellFormed_def)
  have b: "hideCursorWhenComplete p \<and> isComplete (st ?i) \<longrightarrow>
      \<not> showCursor (st ?i) \<and> step IntervalFires ?i = ?i"
    using w a by (simp add: wellFormed_def)
  have c: "\<not> (hideCursorWhenComplete p \<and> isComplete (st ?i)) \<longrightarrow>
      showCursor (st (step IntervalFires ?i)) = (\<not> showCursor (st ?i)) \<and>
      cursorTimer (step IntervalFires ?i) = Some 500"
  proof
    assume "\<not> (hideCursorWhenComplete p \<and> isComplete (st ?i))"
    with a have "cursorTimer ?i = Some 500" by simp
    then show "showCursor (st (step IntervalFires ?i)) = (\<not> showCursor (st ?i)) \<and>
      cursorTimer (step IntervalFires ?i) = Some 500"
      by (simp only: interval_toggle)
  qed
  from a b c show ?thesis by blast
qed

text \<open>
  C5 at the text \<^verbatim>\<open>"A"\<close> with \<^verbatim>\<open>hideCursorWhenComplete\<close>: the interval runs before the
  terminal wake-up and is gone after it, with the cursor off.
\<close>

theorem C5_caret_blinker_witness:
  "fixedConfig ((defaultProps ''A'')\<lparr>hideCursorWhenComplete := True\<rparr>)
     [IntervalFires, TimeoutFires, TimeoutFires] \<and>
   cursorTimer (run [IntervalFires, TimeoutFires, TimeoutFires]
     (mount ((defaultProps ''A'')\<lparr>hideCursorWhenComplete := True\<rparr>))) = None \<and>
   \<not> showCursor (st (run [IntervalFires, TimeoutFires, TimeoutFires]
     (mount ((defaultProps ''A'')\<lparr>hideCursorWhenComplete := True\<rparr>)))) \<and>
   cursorTimer (run [IntervalFires, TimeoutFires]
     (mount ((defaultProps ''A'')\<lparr>hideCursorWhenComplete := True\<rparr>))) = Some 500"
  using C5_caret_blinker [of "(defaultProps ''A'')\<lparr>hideCursorWhenComplete := True\<rparr>"
      "[IntervalFires, TimeoutFires, TimeoutFires]"]
    C5_caret_blinker [of "(defaultProps ''A'')\<lparr>hideCursorWhenComplete := True\<rparr>"
      "[IntervalFires, TimeoutFires]"]
  by (simp add: eval_defs)

subsection \<open>C6: negative delays\<close>

text \<open>
  C6 as stated: a negative \<^verbatim>\<open>speed\<close> or \<^verbatim>\<open>delay\<close> is clamped to zero before it is used
  as a scheduling delay. The source passes the value to \<^verbatim>\<open>setTimeout\<close> as it is (line
  36): with \<^verbatim>\<open>delay = -5\<close> and \<^verbatim>\<open>speed = -3\<close> the two timeouts scheduled up to the
  first reveal have the delays -5 and -3.
\<close>

theorem C6_counterexample:
  "timeouts (trace (run [TimeoutFires]
      (mount ((defaultProps ''Hi'')\<lparr>speed := - 3, delay := - 5\<rparr>)))) = [- 5, - 3]"
  by (simp add: eval_defs)

text \<open>
  C6, amended: the reveal driver passes \<^verbatim>\<open>delay\<close> (when \<^verbatim>\<open>currentIndex\<close> is 0) or
  \<^verbatim>\<open>speed\<close> (otherwise) to \<^verbatim>\<open>setTimeout\<close> unchanged, without clamping. So the delays
  scheduled so far are all non-negative if and only if \<^verbatim>\<open>delay\<close> is non-negative and,
  once a character has been revealed, \<^verbatim>\<open>speed\<close> is non-negative too.
\<close>

theorem C6_delays_passed_unchanged:
  assumes "fixedConfig p es"
  shows "timeouts (trace (run es (mount p))) =
           delay p # replicate (currentIndex (st (run es (mount p)))) (speed p) \<and>
         ((\<forall>ms \<in> set (timeouts (trace (run es (mount p)))). 0 \<le> ms) \<longleftrightarrow>
            0 \<le> delay p \<and> (currentIndex (st (run es (mount p))) = 0 \<or> 0 \<le> speed p))"
proof -
  let ?i = "run es (mount p)"
  have t: "timeouts (trace ?i) = delay p # replicate (currentIndex (st ?i)) (speed p)"
    using reachable_wellFormed [OF assms] by (simp add: wellFormed_def)
  have "(\<forall>ms \<in> set (timeouts (trace ?i)). 0 \<le> ms) \<longleftrightarrow>
      0 \<le> delay p \<and> (currentIndex (st ?i) = 0 \<or> 0 \<le> speed p)"
    unfolding t by auto
  with t show ?thesis by blast
qed

text \<open>The amended C6 at the text \<^verbatim>\<open>"Hi"\<close> with \<^verbatim>\<open>speed = -3\<close>.\<close>

theorem C6_delays_passed_unchanged_witness:
  "fixedConfig ((defaultProps ''Hi'')\<lparr>speed := - 3\<rparr>) [TimeoutFires, TimeoutFires] \<and>
   timeouts (trace (run [TimeoutFires, TimeoutFires]
      (mount ((defaultProps ''Hi'')\<lparr>speed := - 3\<rparr>)))) = [0, - 3, - 3]"
  using C6_delays_passed_unchanged [of "(defaultProps ''Hi'')\<lparr>speed := - 3\<rparr>"
      "[TimeoutFires, TimeoutFires]"]
  by (simp add: eval_defs)

subsection \<open>C8: the empty text\<close>

text \<open>
  C8: for the empty text, the timeout scheduled at mount has the delay \<^verbatim>\<open>delay\<close>; when
  it fires it finds \<^verbatim>\<open>currentIndex\<close> (0) not below the length (0), sets
  \<^verbatim>\<open>isComplete\<close> and calls \<^verbatim>\<open>onComplete\<close> (if there is one). In every state reached
  with fixed props the displayed text is empty, \<^verbatim>\<open>currentIndex\<close> is 0, that timeout is
  the only one ever scheduled, and there is at most the one wake-up.
\<close>

theorem C8_empty_target:
  assumes "text' p = []" and "fixedConfig p es"
  shows "timer (mount p) =
           Some \<lparr>c_currentIndex = 0, c_text = [], c_onComplete = onComplete p,
                 c_ms = delay p\<rparr> \<and>
         isComplete (st (step TimeoutFires (mount p))) \<and>
         completions (trace (step TimeoutFires (mount p))) =
           (case onComplete p of None \<Rightarrow> [] | Some f \<Rightarrow> [f]) \<and>
         displayedText (st (run es (mount p))) = [] \<and>
         currentIndex (st (run es (mount p))) = 0 \<and>
         timeouts (trace (run es (mount p))) = [delay p] \<and>
         wakeups (trace (run es (mount p))) =
           (if isComplete (st (run es (mount p))) then 1 else 0)"
proof -
  let ?i = "run es (mount p)"
  let ?j = "step TimeoutFires (mount p)"
  have w: "wellFormed p ?i" using assms(2) by (rule reachable_wellFormed)
  have a: "timer (mount p) =
      Some \<lparr>c_currentIndex = 0, c_text = [], c_onComplete = onComplete p, c_ms = delay p\<rparr>"
    using assms(1)
    by (simp add: mount_def initialHooks_def revealEffect_def cursorEffect_def Let_def)
  have b: "isComplete (st ?j)"
    by (rule timeout_terminal_st [OF wellFormed_mount mount_not_complete])
       (simp add: mount_currentIndex assms(1))
  have "wellFormed p ?j" by (rule wellFormed_timeout [OF wellFormed_mount])
  with b have c: "completions (trace ?j) = (case onComplete p of None \<Rightarrow> [] | Some f \<Rightarrow> [f])"
    by (simp add: wellFormed_def del: step.simps)
  have z: "currentIndex (st ?i) = 0"
    using w assms(1) by (simp add: wellFormed_def)
  have d: "displayedText (st ?i) = []"
    using w assms(1) by (simp add: wellFormed_def)
  have t: "timeouts (trace ?i) = [delay p]"
    using w z by (simp add: wellFormed_def)
  have k: "wakeups (trace ?i) = (if isComplete (st ?i) then 1 else 0)"
    using w z by (simp add: wellFormed_def)
  from a b c d z t k show ?thesis by blast
qed

text \<open>C8 with \<^verbatim>\<open>delay = 50\<close> and the callback 7.\<close>

theorem C8_empty_target_witness:
  "text' ((defaultProps [])\<lparr>delay := 50, onComplete := Some 7\<rparr>) = [] \<and>
   fixedConfig ((defaultProps [])\<lparr>delay := 50, onComplete := Some 7\<rparr>)
     [IntervalFires, TimeoutFires, TimeoutFires] \<and>
   displayedText (st (run [IntervalFires, TimeoutFires, TimeoutFires]
     (mount ((defaultProps [])\<lparr>delay := 50, onComplete := Some 7\<rparr>)))) = [] \<and>
   timeouts (trace (run [IntervalFires, TimeoutFires, TimeoutFires]
     (mount ((defaultProps [])\<lparr>delay := 50, onComplete := Some 7\<rparr>)))) = [50] \<and>
   completions (trace (step TimeoutFires
     (mount ((defaultProps [])\<lparr>delay := 50, onComplete := Some 7\<rparr>)))) = [7]"
  using C8_empty_target [of "(defaultProps [])\<lparr>delay := 50, onComplete := Some 7\<rparr>"
      "[IntervalFires, TimeoutFires, TimeoutFires]"]
  by (simp add: eval_defs)

subsection \<open>C9: monotonicity and the bound\<close>

text \<open>
  C9: with fixed props, \<^verbatim>\<open>currentIndex\<close> at any state of a run is at most
  \<^verbatim>\<open>currentIndex\<close> at any later state of the same run, and it never exceeds
  \<^verbatim>\<open>text.length\<close>.
\<close>

theorem C9_monotone_bounded:
  assumes "fixedConfig p (es @ es')"
  shows "currentIndex (st (run es (mount p))) \<le> currentIndex (st (run (es @ es') (mount p))) \<and>
         currentIndex (st (run (es @ es') (mount p))) \<le> length (text' p)"
proof -
  have "currentIndex (st (run es (mount p))) \<le> currentIndex (st (run es' (run es (mount p))))"
    by (rule run_currentIndex_mono)
  moreover have "currentIndex (st (run (es @ es') (mount p))) \<le> length (text' p)"
    using reachable_wellFormed [OF assms] by (simp add: wellFormed_def)
  ultimately show ?thesis by (simp add: run_append)
qed

text \<open>C9 at the text \<^verbatim>\<open>"Hi"\<close>: 1 after the first wake-up, 2 at the end of the run.\<close>

theorem C9_monotone_bounded_witness:
  "fixedConfig (defaultProps ''Hi'')
     ([TimeoutFires] @ [IntervalFires, TimeoutFires, TimeoutFires, TimeoutFires]) \<and>
   currentIndex (st (run [TimeoutFires] (mount (defaultProps ''Hi'')))) = 1 \<and>
   currentIndex (st (run ([TimeoutFires] @
      [IntervalFires, TimeoutFires, TimeoutFires, TimeoutFires])
      (mount (defaultProps ''Hi'')))) = 2"
  using C9_monotone_bounded [of "defaultProps ''Hi''" "[TimeoutFires]"
      "[IntervalFires, TimeoutFires, TimeoutFires, TimeoutFires]"]
  by (simp add: eval_defs)

subsection \<open>Props that change: a re-run of the reveal effect, then its wake-up\<close>

lemma rerun_then_terminal:
  assumes ch: "revealDepsChanged (curProps i) (st i) (i\<lparr>curProps := q\<rparr>)"
    and ge: "length (text' q) \<le> currentIndex (st i)"
    and f: "onComplete q = Some f"
  shows "timer (step (Rerender q) i) = Some (pendingClosure q (st i))"
    and "currentIndex (st (step (Rerender q) i)) = currentIndex (st i)"
    and "displayedText (st (step (Rerender q) i)) = displayedText (st i)"
    and "timeouts (trace (step (Rerender q) i)) =
           timeouts (trace i) @ [if currentIndex (st i) = 0 then delay q else speed q]"
    and "completions (trace (step (Rerender q) i)) = completions (trace i)"
    and "isComplete (st (step TimeoutFires (step (Rerender q) i)))"
    and "currentIndex (st (step TimeoutFires (step (Rerender q) i))) = currentIndex (st i)"
    and "displayedText (st (step TimeoutFires (step (Rerender q) i))) = displayedText (st i)"
    and "timer (step TimeoutFires (step (Rerender q) i)) = None"
    and "timeouts (trace (step TimeoutFires (step (Rerender q) i))) =
           timeouts (trace (step (Rerender q) i))"
    and "completions (trace (step TimeoutFires (step (Rerender q) i))) =
           completions (trace i) @ [f]"
proof -
  let ?i1 = "step (Rerender q) i"
  let ?c = "pendingClosure q (st i)"
  show t1: "timer ?i1 = Some ?c"
    using ch by (simp add: commit_timer)
  show c1: "currentIndex (st ?i1) = currentIndex (st i)"
    and d1: "displayedText (st ?i1) = displayedText (st i)"
    by (simp_all add: commit_st)
  show "timeouts (trace ?i1) =
      timeouts (trace i) @ [if currentIndex (st i) = 0 then delay q else speed q]"
    using ch by (simp add: commit_timeouts pendingClosure_def)
  show o1: "completions (trace ?i1) = completions (trace i)"
    by (simp add: commit_completions)
  have p1: "curProps ?i1 = q"
    by (simp add: commit_st)
  have tc: "\<not> c_currentIndex ?c < length (c_text ?c)"
    using ge by (simp add: pendingClosure_def)
  let ?j = "timeoutCallback ?c (?i1\<lparr>timer := None, trace := trace ?i1 @ [TimeoutFired]\<rparr>)"
  have s2: "step TimeoutFires ?i1 = commit (curProps ?i1) (st ?i1) ?j"
    using t1 by (simp del: step.simps(3))
  have j: "?j = ?i1\<lparr>timer := None,
      st := (st ?i1)\<lparr>isComplete := True\<rparr>,
      trace := trace ?i1 @ [TimeoutFired, OnCompleteCalled f]\<rparr>"
    unfolding timeoutCallback_terminal [OF tc] using f by (simp add: pendingClosure_def)
  have nr: "\<not> revealDepsChanged (curProps ?i1) (st ?i1) ?j"
    unfolding j by (simp add: revealDepsChanged_def)
  show "isComplete (st (step TimeoutFires ?i1))"
    unfolding s2 commit_st j by simp
  show "currentIndex (st (step TimeoutFires ?i1)) = currentIndex (st i)"
    unfolding s2 commit_st j using c1 by simp
  show "displayedText (st (step TimeoutFires ?i1)) = displayedText (st i)"
    unfolding s2 commit_st j using d1 by simp
  show "timer (step TimeoutFires ?i1) = None"
    unfolding s2 commit_timer using nr unfolding j by simp
  show "timeouts (trace (step TimeoutFires ?i1)) = timeouts (trace ?i1)"
    unfolding s2 commit_timeouts using nr unfolding j by (simp add: timeouts_append)
  show "completions (trace (step TimeoutFires ?i1)) = completions (trace i) @ [f]"
    unfolding s2 commit_completions j using o1 by (simp add: completions_append)
qed

subsection \<open>C7: the text becomes shorter than the revealed count\<close>

text \<open>
  C7: let the text change to a string \<open>t\<close> whose length is below the current
  \<^verbatim>\<open>currentIndex\<close>, an \<^verbatim>\<open>onComplete\<close> callback \<open>f\<close> being present. The effect is
  re-run and schedules one wake-up (after \<^verbatim>\<open>speed\<close>) that closes over the unchanged
  \<^verbatim>\<open>currentIndex\<close> and the new text; \<^verbatim>\<open>currentIndex\<close> is not reset. When that wake-up
  fires it sets \<^verbatim>\<open>isComplete\<close>, calls \<open>f\<close>, reveals nothing (\<^verbatim>\<open>currentIndex\<close> and the
  displayed text stay as they were before the change) and schedules nothing further.
\<close>

theorem C7_shorter_text:
  assumes "length t < currentIndex (st i)"
    and "t \<noteq> text' (curProps i)"
    and "onComplete (curProps i) = Some f"
  shows "timer (step (Rerender ((curProps i)\<lparr>text' := t\<rparr>)) i) =
           Some \<lparr>c_currentIndex = currentIndex (st i), c_text = t, c_onComplete = Some f,
                 c_ms = speed (curProps i)\<rparr> \<and>
         currentIndex (st (step (Rerender ((curProps i)\<lparr>text' := t\<rparr>)) i)) =
           currentIndex (st i) \<and>
         isComplete (st (step TimeoutFires (step (Rerender ((curProps i)\<lparr>text' := t\<rparr>)) i))) \<and>
         completions (trace (step TimeoutFires
             (step (Rerender ((curProps i)\<lparr>text' := t\<rparr>)) i))) =
           completions (trace i) @ [f] \<and>
         currentIndex (st (step TimeoutFires
             (step (Rerender ((curProps i)\<lparr>text' := t\<rparr>)) i))) = currentIndex (st i) \<and>
         displayedText (st (step TimeoutFires
             (step (Rerender ((curProps i)\<lparr>text' := t\<rparr>)) i))) = displayedText (st i) \<and>
         timer (step TimeoutFires (step (Rerender ((curProps i)\<lparr>text' := t\<rparr>)) i)) = None"
proof -
  let ?q = "(curProps i)\<lparr>text' := t\<rparr>"
  have ch: "revealDepsChanged (curProps i) (st i) (i\<lparr>curProps := ?q\<rparr>)"
    using assms(2) by (simp add: revealDepsChanged_def)
  have ge: "length (text' ?q) \<le> currentIndex (st i)"
    using assms(1) by simp
  have f: "onComplete ?q = Some f"
    using assms(3) by simp
  have "pendingClosure ?q (st i) =
      \<lparr>c_currentIndex = currentIndex (st i), c_text = t, c_onComplete = Some f,
       c_ms = speed (curProps i)\<rparr>"
    using assms(1,3) by (simp add: pendingClosure_def)
  with rerun_then_terminal [OF ch ge f] show ?thesis by (simp del: step.simps)
qed

text \<open>
  C7 at the text \<^verbatim>\<open>"Hello"\<close>, changed to \<^verbatim>\<open>"Hi"\<close> after three reveals: the instance
  completes showing \<^verbatim>\<open>"Hel"\<close>.
\<close>

theorem C7_shorter_text_witness:
  "length ''Hi'' < currentIndex (st (run [TimeoutFires, TimeoutFires, TimeoutFires]
      (mount ((defaultProps ''Hello'')\<lparr>onComplete := Some 7\<rparr>)))) \<and>
   ''Hi'' \<noteq> text' (curProps (run [TimeoutFires, TimeoutFires, TimeoutFires]
      (mount ((defaultProps ''Hello'')\<lparr>onComplete := Some 7\<rparr>)))) \<and>
   onComplete (curProps (run [TimeoutFires, TimeoutFires, TimeoutFires]
      (mount ((defaultProps ''Hello'')\<lparr>onComplete := Some 7\<rparr>)))) = Some 7 \<and>
   isComplete (st (run
      [TimeoutFires, TimeoutFires, TimeoutFires,
       Rerender ((defaultProps ''Hi'')\<lparr>onComplete := Some 7\<rparr>), TimeoutFires]
      (mount ((defaultProps ''Hello'')\<lparr>onComplete := Some 7\<rparr>)))) \<and>
   displayedText (st (run
      [TimeoutFires, TimeoutFires, TimeoutFires,
       Rerender ((defaultProps ''Hi'')\<lparr>onComplete := Some 7\<rparr>), TimeoutFires]
      (mount ((defaultProps ''Hello'')\<lparr>onComplete := Some 7\<rparr>)))) = ''Hel'' \<and>
   completions (trace (run
      [TimeoutFires, TimeoutFires, TimeoutFires,
       Rerender ((defaultProps ''Hi'')\<lparr>onComplete := Some 7\<rparr>), TimeoutFires]
      (mount ((defaultProps ''Hello'')\<lparr>onComplete := Some 7\<rparr>)))) = [7]"
  using C7_shorter_text [of "''Hi''"
      "run [TimeoutFires, TimeoutFires, TimeoutFires]
         (mount ((defaultProps ''Hello'')\<lparr>onComplete := Some 7\<rparr>))" 7]
  by (simp add: eval_defs)

subsection \<open>C10: parameter changes after completion\<close>

text \<open>
  C10 as stated: after completion, each re-run of the reveal effect caused by a change of
  \<^verbatim>\<open>text\<close>, \<^verbatim>\<open>speed\<close>, \<^verbatim>\<open>delay\<close> or \<^verbatim>\<open>onComplete\<close> schedules a wake-up that takes the
  completion branch and calls \<^verbatim>\<open>onComplete\<close> again. This fails when the text changes to
  a longer one: after \<^verbatim>\<open>"Hi"\<close> has completed (one call of the callback 7) and the text
  becomes \<^verbatim>\<open>"Hello"\<close>, the next wake-up takes the reveal branch: it appends
  \<^verbatim>\<open>"Hello"[2]\<close>, does not call the callback, and another timeout is pending.
\<close>

theorem C10_counterexample:
  "isComplete (st (run [TimeoutFires, TimeoutFires, TimeoutFires]
      (mount ((defaultProps ''Hi'')\<lparr>onComplete := Some 7\<rparr>)))) \<and>
   completions (trace (run [TimeoutFires, TimeoutFires, TimeoutFires]
      (mount ((defaultProps ''Hi'')\<lparr>onComplete := Some 7\<rparr>)))) = [7] \<and>
   completions (trace (run
      [TimeoutFires, TimeoutFires, TimeoutFires,
       Rerender ((defaultProps ''Hello'')\<lparr>onComplete := Some 7\<rparr>), TimeoutFires]
      (mount ((defaultProps ''Hi'')\<lparr>onComplete := Some 7\<rparr>)))) = [7] \<and>
   displayedText (st (run
      [TimeoutFires, TimeoutFires, TimeoutFires,
       Rerender ((defaultProps ''Hello'')\<lparr>onComplete := Some 7\<rparr>), TimeoutFires]
      (mount ((defaultProps ''Hi'')\<lparr>onComplete := Some 7\<rparr>)))) = ''Hil'' \<and>
   timer (run
      [TimeoutFires, TimeoutFires, TimeoutFires,
       Rerender ((defaultProps ''Hello'')\<lparr>onComplete := Some 7\<rparr>), TimeoutFires]
      (mount ((defaultProps ''Hi'')\<lparr>onComplete := Some 7\<rparr>))) \<noteq> None"
  by (simp add: eval_defs)

text \<open>
  C10, amended: in any state, in particular after completion, a re-render that changes
  \<^verbatim>\<open>text\<close>, \<^verbatim>\<open>speed\<close>, \<^verbatim>\<open>delay\<close> or the \<^verbatim>\<open>onComplete\<close> reference re-runs the reveal
  effect. The timeout pending afterwards is the one new wake-up this re-run schedules
  (after \<^verbatim>\<open>delay\<close> if \<^verbatim>\<open>currentIndex\<close> is 0, after \<^verbatim>\<open>speed\<close> otherwise); it closes over
  the unchanged \<^verbatim>\<open>currentIndex\<close> and the new \<^verbatim>\<open>text\<close> and \<^verbatim>\<open>onComplete\<close>, and the re-run
  itself calls nothing. While no timeout fires and no re-render changes one of the four
  again (the interval may fire, the parent may change \<^verbatim>\<open>className\<close> or
  \<^verbatim>\<open>hideCursorWhenComplete\<close>), that wake-up stays pending, nothing is scheduled and
  nothing is called. When it then fires:

  \<^item> if the new text is not longer than \<^verbatim>\<open>currentIndex\<close>, it takes the completion
    branch: \<^verbatim>\<open>isComplete\<close> is set, the new \<^verbatim>\<open>onComplete\<close> is called once if there is
    one, nothing is revealed and nothing further is scheduled;
  \<^item> if the new text is longer than \<^verbatim>\<open>currentIndex\<close>, it takes the reveal branch:
    \<^verbatim>\<open>text[currentIndex]\<close> is appended, \<^verbatim>\<open>currentIndex\<close> grows by one,
    \<^verbatim>\<open>onComplete\<close> is not called and the next wake-up is scheduled after \<^verbatim>\<open>speed\<close>.

  So the callback is called once more by every such re-run whose wake-up fires with
  \<^verbatim>\<open>currentIndex >= text.length\<close> and a callback present: it is not called exactly once
  under such changes.
\<close>

theorem C10_rerun_after_completion:
  assumes "text' q \<noteq> text' (curProps i) \<or> speed q \<noteq> speed (curProps i) \<or>
           delay q \<noteq> delay (curProps i) \<or> onComplete q \<noteq> onComplete (curProps i)"
    and "revealFixed q es" and "TimeoutFires \<notin> set es"
  shows "timer (step (Rerender q) i) =
           Some \<lparr>c_currentIndex = currentIndex (st i), c_text = text' q,
                 c_onComplete = onComplete q,
                 c_ms = (if currentIndex (st i) = 0 then delay q else speed q)\<rparr> \<and>
         timeouts (trace (step (Rerender q) i)) =
           timeouts (trace i) @ [if currentIndex (st i) = 0 then delay q else speed q] \<and>
         completions (trace (step (Rerender q) i)) = completions (trace i) \<and>
         timer (run es (step (Rerender q) i)) = timer (step (Rerender q) i) \<and>
         timeouts (trace (run es (step (Rerender q) i))) =
           timeouts (trace (step (Rerender q) i)) \<and>
         completions (trace (run es (step (Rerender q) i))) = completions (trace i) \<and>
         (length (text' q) \<le> currentIndex (st i) \<longrightarrow>
            isComplete (st (step TimeoutFires (run es (step (Rerender q) i)))) \<and>
            completions (trace (step TimeoutFires (run es (step (Rerender q) i)))) =
              completions (trace i) @ (case onComplete q of None \<Rightarrow> [] | Some f \<Rightarrow> [f]) \<and>
            currentIndex (st (step TimeoutFires (run es (step (Rerender q) i)))) =
              currentIndex (st i) \<and>
            displayedText (st (step TimeoutFires (run es (step (Rerender q) i)))) =
              displayedText (st i) \<and>
            timer (step TimeoutFires (run es (step (Rerender q) i))) = None \<and>
            timeouts (trace (step TimeoutFires (run es (step (Rerender q) i)))) =
              timeouts (trace (step (Rerender q) i))) \<and>
         (currentIndex (st i) < length (text' q) \<longrightarrow>
            completions (trace (step TimeoutFires (run es (step (Rerender q) i)))) =
              completions (trace i) \<and>
            currentIndex (st (step TimeoutFires (run es (step (Rerender q) i)))) =
              currentIndex (st i) + 1 \<and>
            displayedText (st (step TimeoutFires (run es (step (Rerender q) i)))) =
              displayedText (st i) @ [text' q ! currentIndex (st i)] \<and>
            timer (step TimeoutFires (run es (step (Rerender q) i))) =
              Some \<lparr>c_currentIndex = currentIndex (st i) + 1, c_text = text' q,
                    c_onComplete = onComplete q, c_ms = speed q\<rparr> \<and>
            timeouts (trace (step TimeoutFires (run es (step (Rerender q) i)))) =
              timeouts (trace (step (Rerender q) i)) @ [speed q])"
proof -
  let ?i1 = "step (Rerender q) i"
  let ?j = "run es ?i1"
  let ?c = "\<lparr>c_currentIndex = currentIndex (st i), c_text = text' q,
             c_onComplete = onComplete q,
             c_ms = (if currentIndex (st i) = 0 then delay q else speed q)\<rparr>"
  have ch: "revealDepsChanged (curProps i) (st i) (i\<lparr>curProps := q\<rparr>)"
    using assms(1) by (auto simp add: revealDepsChanged_def)
  have t1: "timer ?i1 = Some ?c"
    using ch by (simp add: commit_timer pendingClosure_def)
  have m1: "timeouts (trace ?i1) =
      timeouts (trace i) @ [if currentIndex (st i) = 0 then delay q else speed q]"
    using ch by (simp add: commit_timeouts pendingClosure_def)
  have o1: "completions (trace ?i1) = completions (trace i)"
    by (simp add: commit_completions)
  have s1: "currentIndex (st ?i1) = currentIndex (st i)"
    "displayedText (st ?i1) = displayedText (st i)"
    by (simp_all add: commit_st)
  have "curProps ?i1 = q"
    by (simp add: commit_st)
  then have "sameReveal q (curProps ?i1)"
    by (simp only: sameReveal_refl)
  from quiet_run [OF this assms(2,3)]
  have tj: "timer ?j = timer ?i1"
    and cj: "currentIndex (st ?j) = currentIndex (st ?i1)"
    and dj: "displayedText (st ?j) = displayedText (st ?i1)"
    and mj: "timeouts (trace ?j) = timeouts (trace ?i1)"
    and oj: "completions (trace ?j) = completions (trace ?i1)"
    and pj: "sameReveal q (curProps ?j)"
    by blast+
  have tj': "timer ?j = Some ?c"
    using tj t1 by simp
  have pq: "text' (curProps ?j) = text' q" "speed (curProps ?j) = speed q"
    "onComplete (curProps ?j) = onComplete q"
    using pj by (simp_all add: sameReveal_def)
  have tb: "isComplete (st (step TimeoutFires ?j)) \<and>
      completions (trace (step TimeoutFires ?j)) =
        completions (trace i) @ (case onComplete q of None \<Rightarrow> [] | Some f \<Rightarrow> [f]) \<and>
      currentIndex (st (step TimeoutFires ?j)) = currentIndex (st i) \<and>
      displayedText (st (step TimeoutFires ?j)) = displayedText (st i) \<and>
      timer (step TimeoutFires ?j) = None \<and>
      timeouts (trace (step TimeoutFires ?j)) = timeouts (trace ?i1)"
    if ge: "length (text' q) \<le> currentIndex (st i)"
  proof -
    have nl: "\<not> c_currentIndex ?c < length (c_text ?c)"
      using ge by simp
    note w = wakeup_terminal [OF tj' nl]
    show ?thesis
      by (simp add: w cj dj mj oj s1 o1 del: step.simps)
  qed
  have rb: "completions (trace (step TimeoutFires ?j)) = completions (trace i) \<and>
      currentIndex (st (step TimeoutFires ?j)) = currentIndex (st i) + 1 \<and>
      displayedText (st (step TimeoutFires ?j)) =
        displayedText (st i) @ [text' q ! currentIndex (st i)] \<and>
      timer (step TimeoutFires ?j) =
        Some \<lparr>c_currentIndex = currentIndex (st i) + 1, c_text = text' q,
              c_onComplete = onComplete q, c_ms = speed q\<rparr> \<and>
      timeouts (trace (step TimeoutFires ?j)) = timeouts (trace ?i1) @ [speed q]"
    if lt: "currentIndex (st i) < length (text' q)"
  proof -
    have l: "c_currentIndex ?c < length (c_text ?c)"
      using lt by simp
    note w = wakeup_reveal [OF tj' l]
    show ?thesis
      by (simp add: w cj dj mj oj s1 o1 pq del: step.simps)
  qed
  from t1 m1 o1 tj mj oj tb rb show ?thesis
    by (simp del: step.simps)
qed

text \<open>
  The amended C10 after the text \<^verbatim>\<open>"Hi"\<close> has completed, three times: \<^verbatim>\<open>speed\<close>
  changes to 50 and the wake-up fires after an interval firing and a change of
  \<^verbatim>\<open>className\<close> (the callback 7 is called a second time); the text changes to
  \<^verbatim>\<open>"Hello"\<close> (the wake-up reveals a character and calls nothing); \<^verbatim>\<open>speed\<close> changes to
  50 and then to 60 before any wake-up (one wake-up fires, one further call).
\<close>

theorem C10_rerun_after_completion_witness:
  "speed ((defaultProps ''Hi'')\<lparr>onComplete := Some 7, speed := 50\<rparr>) \<noteq>
     speed (curProps (run [TimeoutFires, TimeoutFires, TimeoutFires]
       (mount ((defaultProps ''Hi'')\<lparr>onComplete := Some 7\<rparr>)))) \<and>
   revealFixed ((defaultProps ''Hi'')\<lparr>onComplete := Some 7, speed := 50\<rparr>)
     [IntervalFires,
      Rerender ((defaultProps ''Hi'')\<lparr>onComplete := Some 7, speed := 50, className := ''x''\<rparr>)] \<and>
   TimeoutFires \<notin> set
     [IntervalFires,
      Rerender ((defaultProps ''Hi'')\<lparr>onComplete := Some 7, speed := 50, className := ''x''\<rparr>)] \<and>
   length (text' ((defaultProps ''Hi'')\<lparr>onComplete := Some 7, speed := 50\<rparr>)) \<le>
     currentIndex (st (run [TimeoutFires, TimeoutFires, TimeoutFires]
       (mount ((defaultProps ''Hi'')\<lparr>onComplete := Some 7\<rparr>)))) \<and>
   completions (trace (run
      [TimeoutFires, TimeoutFires, TimeoutFires,
       Rerender ((defaultProps ''Hi'')\<lparr>onComplete := Some 7, speed := 50\<rparr>),
       IntervalFires,
       Rerender ((defaultProps ''Hi'')\<lparr>onComplete := Some 7, speed := 50, className := ''x''\<rparr>),
       TimeoutFires]
      (mount ((defaultProps ''Hi'')\<lparr>onComplete := Some 7\<rparr>)))) = [7, 7] \<and>
   timeouts (trace (run
      [TimeoutFires, TimeoutFires, TimeoutFires,
       Rerender ((defaultProps ''Hi'')\<lparr>onComplete := Some 7, speed := 50\<rparr>),
       IntervalFires,
       Rerender ((defaultProps ''Hi'')\<lparr>onComplete := Some 7, speed := 50, className := ''x''\<rparr>),
       TimeoutFires]
      (mount ((defaultProps ''Hi'')\<lparr>onComplete := Some 7\<rparr>)))) = [0, 100, 100, 50] \<and>
   currentIndex (st (run [TimeoutFires, TimeoutFires, TimeoutFires]
       (mount ((defaultProps ''Hi'')\<lparr>onComplete := Some 7\<rparr>)))) <
     length (text' ((defaultProps ''Hello'')\<lparr>onComplete := Some 7\<rparr>)) \<and>
   displayedText (st (run
      [TimeoutFires, TimeoutFires, TimeoutFires,
       Rerender ((defaultProps ''Hello'')\<lparr>onComplete := Some 7\<rparr>), TimeoutFires]
      (mount ((defaultProps ''Hi'')\<lparr>onComplete := Some 7\<rparr>)))) = ''Hil'' \<and>
   completions (trace (run
      [TimeoutFires, TimeoutFires, TimeoutFires,
       Rerender ((defaultProps ''Hello'')\<lparr>onComplete := Some 7\<rparr>), TimeoutFires]
      (mount ((defaultProps ''Hi'')\<lparr>onComplete := Some 7\<rparr>)))) = [7] \<and>
   timeouts (trace (run
      [TimeoutFires, TimeoutFires, TimeoutFires,
       Rerender ((defaultProps ''Hi'')\<lparr>onComplete := Some 7, speed := 50\<rparr>),
       Rerender ((defaultProps ''Hi'')\<lparr>onComplete := Some 7, speed := 60\<rparr>),
       TimeoutFires]
      (mount ((defaultProps ''Hi'')\<lparr>onComplete := Some 7\<rparr>)))) = [0, 100, 100, 50, 60] \<and>
   completions (trace (run
      [TimeoutFires, TimeoutFires, TimeoutFires,
       Rerender ((defaultProps ''Hi'')\<lparr>onComplete := Some 7, speed := 50\<rparr>),
       Rerender ((defaultProps ''Hi'')\<lparr>onComplete := Some 7, speed := 60\<rparr>),
       TimeoutFires]
      (mount ((defaultProps ''Hi'')\<lparr>onComplete := Some 7\<rparr>)))) = [7, 7]"
  using
    C10_rerun_after_completion
      [where i = "run [TimeoutFires, TimeoutFires, TimeoutFires]
                    (mount ((defaultProps ''Hi'')\<lparr>onComplete := Some 7\<rparr>))"
         and q = "(defaultProps ''Hi'')\<lparr>onComplete := Some 7, speed := 50\<rparr>"
         and es = "[IntervalFires,
                    Rerender ((defaultProps ''Hi'')
                      \<lparr>onComplete := Some 7, speed := 50, className := ''x''\<rparr>)]"]
    C10_rerun_after_completion
      [where i = "run [TimeoutFires, TimeoutFires, TimeoutFires]
                    (mount ((defaultProps ''Hi'')\<lparr>onComplete := Some 7\<rparr>))"
         and q = "(defaultProps ''Hello'')\<lparr>onComplete := Some 7\<rparr>"
         and es = "[]"]
    C10_rerun_after_completion
      [where i = "run [TimeoutFires, TimeoutFires, TimeoutFires,
                       Rerender ((defaultProps ''Hi'')\<lparr>onComplete := Some 7, speed := 50\<rparr>)]
                    (mount ((defaultProps ''Hi'')\<lparr>onComplete := Some 7\<rparr>))"
         and q = "(defaultProps ''Hi'')\<lparr>onComplete := Some 7, speed := 60\<rparr>"
         and es = "[]"]
  by (simp add: reveal_eval_defs)

end
